theory Spec2Isabelle
  imports Main "HOL-Library.Word"
begin

section \<open>Strings of the program\<close>

text \<open>
  A JavaScript string is a sequence of UTF-16 code units. \<open>js\<close> writes an ASCII literal of
  the source as such a sequence.
\<close>

type_synonym jschar = "16 word"
type_synonym jsstring = "jschar list"

definition js :: "string \<Rightarrow> jsstring" where
  "js s = map of_char s"

text \<open>
  The characters matched by the regular expression class \<^verbatim>\<open>\s\<close> and stripped by
  \<^verbatim>\<open>String.prototype.trim\<close>: ECMAScript's WhiteSpace and LineTerminator code points, all of
  which are single code units.
\<close>

definition isWhiteSpace :: "jschar \<Rightarrow> bool" where
  "isWhiteSpace c \<longleftrightarrow>
     c \<in> {0x09, 0x0A, 0x0B, 0x0C, 0x0D, 0x20, 0xA0, 0x1680,
          0x2028, 0x2029, 0x202F, 0x205F, 0x3000, 0xFEFF}
     \<or> (0x2000 \<le> c \<and> c \<le> 0x200A)"

text \<open>
  \<^verbatim>\<open>content.split(/\s+/)\<close>: the pieces between maximal runs of white space. The first
  argument is the piece being read. A string that starts or ends with white space has an
  empty first or last piece, and the empty string has the one piece \<open>[]\<close>.
\<close>

function splitFrom :: "jsstring \<Rightarrow> jsstring \<Rightarrow> jsstring list" where
  "splitFrom piece [] = [piece]"
| "splitFrom piece (c # cs) =
     (if isWhiteSpace c then piece # splitFrom [] (dropWhile isWhiteSpace cs)
      else splitFrom (piece @ [c]) cs)"
  by pat_completeness auto
termination
  by (relation "measure (\<lambda>(piece, s). length s)")
     (auto simp: le_imp_less_Suc length_dropWhile_le)

definition split_whitespace :: "jsstring \<Rightarrow> jsstring list" where
  "split_whitespace s = splitFrom [] s"

text \<open>\<^verbatim>\<open>s.split(' ')\<close>: the pieces between single occurrences of the separator.\<close>

fun splitOn :: "jschar \<Rightarrow> jsstring \<Rightarrow> jsstring \<Rightarrow> jsstring list" where
  "splitOn sep piece [] = [piece]"
| "splitOn sep piece (c # cs) =
     (if c = sep then piece # splitOn sep [] cs else splitOn sep (piece @ [c]) cs)"

definition split_space :: "jsstring \<Rightarrow> jsstring list" where
  "split_space s = splitOn 0x20 [] s"

text \<open>\<^verbatim>\<open>s.trim()\<close>.\<close>

definition trim :: "jsstring \<Rightarrow> jsstring" where
  "trim s = rev (dropWhile isWhiteSpace (rev (dropWhile isWhiteSpace s)))"

text \<open>\<^verbatim>\<open>xs[i]\<close>, which is \<^verbatim>\<open>undefined\<close> (here \<open>None\<close>) out of range.\<close>

definition at_index :: "'a list \<Rightarrow> nat \<Rightarrow> 'a option" where
  "at_index xs i = (if i < length xs then Some (xs ! i) else None)"

section \<open>JSON.stringify with a two-space indent\<close>

text \<open>
  The values the program serialises are those it reads from a content block: a string, or a
  plain object whose properties hold strings (an image reference with its \<open>url\<close> and
  \<open>detail\<close>).
\<close>

datatype jsvalue = Str jsstring | Obj "(jsstring \<times> jsstring) list"

definition hexDigit :: "nat \<Rightarrow> jschar" where
  "hexDigit n = (if n < 10 then of_nat (48 + n) else of_nat (87 + n))"

definition unicodeEscape :: "jschar \<Rightarrow> jsstring" where
  "unicodeEscape c =
     [0x5C, 0x75] @ map (\<lambda>k. hexDigit (unat c div 16 ^ k mod 16)) [3, 2, 1, 0]"

definition isHighSurrogate :: "jschar \<Rightarrow> bool" where
  "isHighSurrogate c \<longleftrightarrow> 0xD800 \<le> c \<and> c \<le> 0xDBFF"

definition isLowSurrogate :: "jschar \<Rightarrow> bool" where
  "isLowSurrogate c \<longleftrightarrow> 0xDC00 \<le> c \<and> c \<le> 0xDFFF"

definition quoteUnit :: "jschar \<Rightarrow> jsstring" where
  "quoteUnit c =
     (if c = 0x08 then [0x5C, 0x62]
      else if c = 0x09 then [0x5C, 0x74]
      else if c = 0x0A then [0x5C, 0x6E]
      else if c = 0x0C then [0x5C, 0x66]
      else if c = 0x0D then [0x5C, 0x72]
      else if c = 0x22 then [0x5C, 0x22]
      else if c = 0x5C then [0x5C, 0x5C]
      else if c < 0x20 \<or> isHighSurrogate c \<or> isLowSurrogate c then unicodeEscape c
      else [c])"

fun quoteBody :: "jsstring \<Rightarrow> jsstring" where
  "quoteBody [] = []"
| "quoteBody [c] = quoteUnit c"
| "quoteBody (c # d # cs) =
     (if isHighSurrogate c \<and> isLowSurrogate d then c # d # quoteBody cs
      else quoteUnit c @ quoteBody (d # cs))"

definition quoteJSONString :: "jsstring \<Rightarrow> jsstring" where
  "quoteJSONString s = [0x22] @ quoteBody s @ [0x22]"

definition indentation :: "nat \<Rightarrow> jsstring" where
  "indentation n = replicate (2 * n) 0x20"

fun joinWith :: "jsstring \<Rightarrow> jsstring list \<Rightarrow> jsstring" where
  "joinWith sep [] = []"
| "joinWith sep [x] = x"
| "joinWith sep (x # y # ys) = x @ sep @ joinWith sep (y # ys)"

text \<open>The serialisation of a value that sits \<open>n\<close> levels deep.\<close>

fun serializeJSON :: "nat \<Rightarrow> jsvalue \<Rightarrow> jsstring" where
  "serializeJSON n (Str s) = quoteJSONString s"
| "serializeJSON n (Obj ps) =
     (if ps = [] then js ''{}''
      else js ''{'' @ [0x0A] @ indentation (Suc n)
        @ joinWith ([0x2C, 0x0A] @ indentation (Suc n))
            (map (\<lambda>(k, v). quoteJSONString k @ js '': '' @ quoteJSONString v) ps)
        @ [0x0A] @ indentation n @ js ''}'')"

definition serializeJSONArray :: "jsvalue list \<Rightarrow> jsstring" where
  "serializeJSONArray vs =
     (if vs = [] then js ''[]''
      else js ''['' @ [0x0A] @ indentation 1
        @ joinWith ([0x2C, 0x0A] @ indentation 1) (map (serializeJSON 1) vs)
        @ [0x0A] @ js '']'')"

text \<open>
  \<^verbatim>\<open>JSON.stringify(v, undefined, '  ')\<close> of a value that may be \<^verbatim>\<open>undefined\<close>: the
  result is then \<^verbatim>\<open>undefined\<close> too, not a string.
\<close>

definition JSON_stringify :: "jsvalue option \<Rightarrow> jsstring option" where
  "JSON_stringify v = (case v of None \<Rightarrow> None | Some x \<Rightarrow> Some (serializeJSON 0 x))"

section \<open>Messages\<close>

text \<open>
  A content block is read through its \<open>type\<close> tag: \<open>text\<close> and \<open>image_url\<close> blocks carry
  the value stored under that tag, every other block only its tag.
\<close>

datatype content_block = TextBlock jsstring | ImageUrlBlock jsvalue | OtherBlock jsstring

datatype content = PlainText jsstring | Blocks "content_block list"

text \<open>The class of a message object, which the source tests with \<^verbatim>\<open>instanceof\<close>.\<close>

datatype role = Human | AI | Tool | System | Generic

text \<open>
  What \<^verbatim>\<open>Number(...)\<close> gives for a reported total. Token counts are integers below
  \<open>2 ^ 53\<close>, where the arithmetic of JavaScript numbers is that of the integers.
\<close>

datatype js_number = NaN | Num int

text \<open>
  What the token counter reads of \<^verbatim>\<open>response_metadata\<close>: no \<open>tokenUsage\<close> key, a
  \<open>tokenUsage\<close> object without a \<open>totalTokens\<close> key, or the number its \<open>totalTokens\<close>
  converts to.
\<close>

datatype token_usage = NoTokenUsage | NoTotalTokens | TotalTokens js_number

record message =
  role :: role
  content :: content
  response_metadata :: token_usage

definition HumanMessage :: "jsstring \<Rightarrow> message" where
  "HumanMessage text = \<lparr>role = Human, content = PlainText text, response_metadata = NoTokenUsage\<rparr>"

definition SystemMessage :: "jsstring \<Rightarrow> message" where
  "SystemMessage text = \<lparr>role = System, content = PlainText text, response_metadata = NoTokenUsage\<rparr>"

text \<open>An assistant message without reported usage.\<close>

definition AIMessage :: "jsstring \<Rightarrow> message" where
  "AIMessage text = \<lparr>role = AI, content = PlainText text, response_metadata = NoTokenUsage\<rparr>"

record agent =
  systemPrompt :: jsstring

datatype error = TypeError | SyntaxError | ZodError | IOError | TemplateError | ModelError

text \<open>What the program writes to the console and hands to its collaborators, in order.\<close>

datatype log =
    Warn_unsupported_content jsstring
  | Warn_invalid_token_count
  | Warn_missing_token_count
  | Log_counted nat int
  | Info_loaded "jsstring option"
  | Error_loading error
  | Log_history "message list"
  | Invoke_llm "message list"
  | Invoke_agent agent "message list"
  | Stdout jsstring
  | Error_unexpected error

section \<open>Content normaliser and token estimator\<close>

text \<open>The loop of \<open>contentToString\<close> over the blocks, with the array \<open>result\<close> it fills.\<close>

fun pushBlocks :: "content_block list \<Rightarrow> jsvalue list \<Rightarrow> log list \<Rightarrow> jsvalue list \<times> log list" where
  "pushBlocks [] result logs = (result, logs)"
| "pushBlocks (TextBlock t # cs) result logs = pushBlocks cs (result @ [Str t]) logs"
| "pushBlocks (ImageUrlBlock v # cs) result logs = pushBlocks cs (result @ [v]) logs"
| "pushBlocks (OtherBlock ty # cs) result logs =
     pushBlocks cs result (logs @ [Warn_unsupported_content ty])"

text \<open>
  \<open>contentToString\<close> is declared to return a string. With no supported block, \<open>result[0]\<close>
  is \<^verbatim>\<open>undefined\<close>, and so is what the function returns (\<open>None\<close>).
\<close>

definition contentToString :: "content \<Rightarrow> jsstring option \<times> log list" where
  "contentToString c =
     (case c of
        PlainText s \<Rightarrow> (Some s, [])
      | Blocks bs \<Rightarrow>
          (case pushBlocks bs [] [] of
             (result, logs) \<Rightarrow>
               (if length result > 1 then Some (serializeJSONArray result)
                else (case at_index result 0 of
                        Some (Str s) \<Rightarrow> Some s
                      | other \<Rightarrow> JSON_stringify other),
                logs)))"

text \<open>
  \<open>estimateTokens\<close>: the number of pieces of the normalised content. Calling \<open>split\<close> on
  \<^verbatim>\<open>undefined\<close> raises a TypeError.
\<close>

definition estimateTokens :: "content \<Rightarrow> (error + nat) \<times> log list" where
  "estimateTokens c =
     (case contentToString c of
        (None, logs) \<Rightarrow> (Inl TypeError, logs)
      | (Some s, logs) \<Rightarrow> (Inr (length (split_whitespace s)), logs))"

section \<open>Token counter\<close>

text \<open>The last statement of the callback: \<^verbatim>\<open>return tokens + estimateTokens(msg.content)\<close>.\<close>

definition addEstimate :: "int \<Rightarrow> message \<Rightarrow> log list \<Rightarrow> (error + int) \<times> log list" where
  "addEstimate tokens msg logs =
     (case estimateTokens (content msg) of
        (Inl e, logs') \<Rightarrow> (Inl e, logs @ logs')
      | (Inr n, logs') \<Rightarrow> (Inr (tokens + int n), logs @ logs'))"

text \<open>The callback given to \<open>reduce\<close>, from the running total and one message.\<close>

definition reducer :: "int \<Rightarrow> message \<Rightarrow> (error + int) \<times> log list" where
  "reducer tokens msg =
     (case response_metadata msg of
        TotalTokens (Num totalTokens) \<Rightarrow>
          (Inr (if totalTokens > tokens then totalTokens else tokens), [])
      | TotalTokens NaN \<Rightarrow> addEstimate tokens msg [Warn_invalid_token_count]
      | _ \<Rightarrow> addEstimate tokens msg (if role msg = AI then [Warn_missing_token_count] else []))"

text \<open>\<open>msgs.reduce(callback, tokens)\<close>; an exception of the callback ends it.\<close>

fun reduce :: "message list \<Rightarrow> int \<Rightarrow> log list \<Rightarrow> (error + int) \<times> log list" where
  "reduce [] tokens logs = (Inr tokens, logs)"
| "reduce (msg # msgs) tokens logs =
     (case reducer tokens msg of
        (Inl e, logs') \<Rightarrow> (Inl e, logs @ logs')
      | (Inr tokens', logs') \<Rightarrow> reduce msgs tokens' (logs @ logs'))"

definition tokenCounter :: "message list \<Rightarrow> (error + int) \<times> log list" where
  "tokenCounter msgs =
     (case reduce msgs 0 [] of
        (Inl e, logs) \<Rightarrow> (Inl e, logs)
      | (Inr count, logs) \<Rightarrow> (Inr count, logs @ [Log_counted (length msgs) count]))"

section \<open>The spec's count of white-space delimited tokens\<close>

text \<open>
  This definition follows the words of the specification, not the source: the tokens of a
  string delimited by white space are its maximal runs of characters that are not white
  space. It is compared with \<open>estimateTokens\<close> below.
\<close>

function count_words :: "jsstring \<Rightarrow> nat" where
  "count_words [] = 0"
| "count_words (c # cs) =
     (if isWhiteSpace c then count_words cs
      else Suc (count_words (dropWhile (\<lambda>x. \<not> isWhiteSpace x) cs)))"
  by pat_completeness auto
termination
  by (relation "measure length") (auto simp: le_imp_less_Suc length_dropWhile_le)

text \<open>
  The empty pieces that \<open>split\<close> adds to the words: one for the empty string, and otherwise
  one for white space at the start and one for white space at the end.
\<close>

definition edge_pieces :: "jsstring \<Rightarrow> nat" where
  "edge_pieces s =
     (if s = [] then 1
      else (if isWhiteSpace (hd s) then 1 else 0) + (if isWhiteSpace (last s) then 1 else 0))"

section \<open>Bot definitions and their loader\<close>

record BotDefinition =
  systemMessage :: jsstring
  initialPromptTemplate :: jsstring

text \<open>
  A compiled template, applied to \<^verbatim>\<open>{ input }\<close>; rendering may raise. The fields of
  \<open>CompiledBot\<close> carry the prefix \<open>compiled\<close>, since a record's field names are global.
\<close>

type_synonym template = "jsstring \<Rightarrow> error + jsstring"

record CompiledBot =
  compiledSystemMessage :: jsstring
  compiledInitialPromptTemplate :: template

datatype json =
    JNull | JBool bool | JNumber int | JString jsstring
  | JArray "json list" | JObject "(jsstring \<times> json) list"

datatype strategy = First | Last

record trim_options =
  maxTokens :: int
  strategy :: strategy
  allowPartial :: bool
  endOn :: role
  tokenCounterOption :: "message list \<Rightarrow> (error + int) \<times> log list"

text \<open>
  The collaborators of the program, which are libraries and services outside the
  repository: the file system, \<open>JSON.parse\<close>, \<open>Handlebars.compile\<close>, LangChain's
  \<open>trimMessages\<close>, the chat model and the agent (which returns the messages it was given
  followed by the new ones).
\<close>

record env =
  readFile :: "jsstring \<Rightarrow> error + jsstring"
  JSON_parse :: "jsstring \<Rightarrow> error + json"
  Handlebars_compile :: "jsstring \<Rightarrow> template"
  trimMessages :: "trim_options \<Rightarrow> message list \<Rightarrow> error + message list"
  llm_invoke :: "message list \<Rightarrow> error + message"
  agent_invoke :: "agent \<Rightarrow> message list \<Rightarrow> error + message list"

text \<open>
  \<open>botDefinitionSchema.parse\<close>: an object whose \<open>systemMessage\<close> and
  \<open>initialPromptTemplate\<close> are strings; other keys are dropped.
\<close>

definition botDefinitionSchema_parse :: "json \<Rightarrow> error + BotDefinition" where
  "botDefinitionSchema_parse v =
     (case v of
        JObject ps \<Rightarrow>
          (case (map_of ps (js ''systemMessage''), map_of ps (js ''initialPromptTemplate'')) of
             (Some (JString s), Some (JString t)) \<Rightarrow>
               Inr \<lparr>systemMessage = s, initialPromptTemplate = t\<rparr>
           | _ \<Rightarrow> Inl ZodError)
      | _ \<Rightarrow> Inl ZodError)"

text \<open>
  \<open>loadBotDefinition\<close>. Its argument is \<^verbatim>\<open>undefined\<close> (\<open>None\<close>) when the \<open>.load\<close>
  command names no file, and \<open>fs.readFile\<close> then rejects with a TypeError.
\<close>

definition loadBotDefinition :: "env \<Rightarrow> jsstring option \<Rightarrow> error + BotDefinition" where
  "loadBotDefinition e file =
     (case file of
        None \<Rightarrow> Inl TypeError
      | Some f \<Rightarrow>
          (case readFile e f of
             Inl err \<Rightarrow> Inl err
           | Inr text \<Rightarrow>
               (case JSON_parse e text of
                  Inl err \<Rightarrow> Inl err
                | Inr v \<Rightarrow> botDefinitionSchema_parse v)))"

definition defaultBot :: BotDefinition where
  "defaultBot =
     \<lparr>systemMessage = js (''You are a helpful AI assistant. Responses will be displayed on ''
        @ ''the command line in plain text so please use minimal formatting.''),
      initialPromptTemplate = js ''{{input}}''\<rparr>"

definition compileBot :: "env \<Rightarrow> BotDefinition \<Rightarrow> CompiledBot" where
  "compileBot e b =
     \<lparr>compiledSystemMessage = systemMessage b,
      compiledInitialPromptTemplate = Handlebars_compile e (initialPromptTemplate b)\<rparr>"

definition createAgent :: "jsstring \<Rightarrow> agent" where
  "createAgent prompt = \<lparr>systemPrompt = prompt\<rparr>"

section \<open>Session controller\<close>

text \<open>
  The global variables of the program. The plain variant (the file without an agent) has
  the first three; the agent variant (\<open>src/index.ts\<close>) has the agent as well.
\<close>

record session =
  bot :: BotDefinition
  compiledBot :: CompiledBot
  conversation :: "message list"

record agent_session = session +
  agent :: agent

text \<open>
  How the handler of a line ends: it prompts for the next line, it closes the terminal, or
  the process exits with status 1.
\<close>

datatype 'st outcome = Prompt 'st "log list" | Closed 'st | ProcessExit "log list"

text \<open>
  Start of the program with the \<open>--file\<close> argument, if any (an empty argument is falsy).
  A definition that fails to load ends the process. The agent variant creates its agent
  from the built-in definition before it reads the argument.
\<close>

definition startupBot :: "env \<Rightarrow> jsstring option \<Rightarrow> error + BotDefinition" where
  "startupBot e file =
     (if file = None \<or> file = Some [] then Inr defaultBot else loadBotDefinition e file)"

definition startup_plain :: "env \<Rightarrow> jsstring option \<Rightarrow> error + session" where
  "startup_plain e file =
     (case startupBot e file of
        Inl err \<Rightarrow> Inl err
      | Inr b \<Rightarrow> Inr \<lparr>bot = b, compiledBot = compileBot e b, conversation = []\<rparr>)"

definition startup_agent :: "env \<Rightarrow> jsstring option \<Rightarrow> error + agent_session" where
  "startup_agent e file =
     (let a = createAgent (systemMessage defaultBot) in
      case startupBot e file of
        Inl err \<Rightarrow> Inl err
      | Inr b \<Rightarrow> Inr \<lparr>bot = b, compiledBot = compileBot e b, conversation = [], agent = a\<rparr>)"

text \<open>
  The branch the handler takes for a line: the tests of its \<open>if\<close> chain, in order.
  \<open>Load\<close> carries \<^verbatim>\<open>input.trim().split(' ')[1]\<close>.
\<close>

datatype command = Exit | Reset | Load "jsstring option" | Chat jsstring

definition command_of :: "jsstring option \<Rightarrow> command" where
  "command_of input =
     (case input of
        None \<Rightarrow> Exit
      | Some line \<Rightarrow>
          if trim line = js ''.exit'' then Exit
          else if trim line = js ''.reset'' then Reset
          else if at_index (split_space (trim line)) 0 = Some (js ''.load'')
            then Load (at_index (split_space (trim line)) 1)
          else Chat line)"

definition trimmer :: "env \<Rightarrow> message list \<Rightarrow> error + message list" where
  "trimmer e =
     trimMessages e
       \<lparr>maxTokens = 1000, strategy = Last, allowPartial = True, endOn = Human,
        tokenCounterOption = tokenCounter\<rparr>"

text \<open>
  The first part of a chat turn, shared by both variants: the new conversation and what
  was logged, or the exception of the template or of the trimmer.
\<close>

definition extend_conversation ::
  "env \<Rightarrow> CompiledBot \<Rightarrow> message list \<Rightarrow> jsstring \<Rightarrow> error + message list \<times> log list" where
  "extend_conversation e cb conv input =
     (if length conv = 0 then
        (case compiledInitialPromptTemplate cb input of
           Inl err \<Rightarrow> Inl err
         | Inr text \<Rightarrow> Inr (conv @ [HumanMessage text], []))
      else
        (case trimmer e (conv @ [HumanMessage input]) of
           Inl err \<Rightarrow> Inl err
         | Inr trimmed \<Rightarrow> Inr (trimmed, [Log_history trimmed])))"

text \<open>What the plain variant prints of the reply.\<close>

definition reply_text :: "message \<Rightarrow> jsstring" where
  "reply_text res =
     (case fst (contentToString (content res)) of
        None \<Rightarrow> js ''undefined''
      | Some s \<Rightarrow> s) @ [0x0A, 0x0A]"

definition chat_plain :: "env \<Rightarrow> jsstring \<Rightarrow> session \<Rightarrow> session outcome" where
  "chat_plain e input s =
     (case extend_conversation e (compiledBot s) (conversation s) input of
        Inl err \<Rightarrow> ProcessExit [Error_unexpected err]
      | Inr (conv, logs) \<Rightarrow>
          (let messages = [SystemMessage (compiledSystemMessage (compiledBot s))] @ conv in
           case llm_invoke e messages of
             Inl err \<Rightarrow> ProcessExit (logs @ [Invoke_llm messages, Error_unexpected err])
           | Inr res \<Rightarrow>
               Prompt (s\<lparr>conversation := conv @ [res]\<rparr>)
                 (logs @ [Invoke_llm messages] @ snd (contentToString (content res))
                    @ [Stdout (reply_text res)])))"

definition chat_agent :: "env \<Rightarrow> jsstring \<Rightarrow> agent_session \<Rightarrow> agent_session outcome" where
  "chat_agent e input s =
     (case extend_conversation e (compiledBot s) (conversation s) input of
        Inl err \<Rightarrow> ProcessExit [Error_unexpected err]
      | Inr (conv, logs) \<Rightarrow>
          (let messages = [] @ conv in
           case agent_invoke e (agent s) messages of
             Inl err \<Rightarrow> ProcessExit (logs @ [Invoke_agent (agent s) messages, Error_unexpected err])
           | Inr res_messages \<Rightarrow>
               Prompt (s\<lparr>conversation := conv @ drop (length messages) res_messages\<rparr>)
                 (logs @ [Invoke_agent (agent s) messages, Stdout [0x0A, 0x0A]])))"

text \<open>The handler of a line in the plain variant.\<close>

definition on_line_plain :: "env \<Rightarrow> jsstring option \<Rightarrow> session \<Rightarrow> session outcome" where
  "on_line_plain e input s =
     (case command_of input of
        Exit \<Rightarrow> Closed s
      | Reset \<Rightarrow> Prompt (s\<lparr>conversation := []\<rparr>) []
      | Load file \<Rightarrow>
          (case loadBotDefinition e file of
             Inr b \<Rightarrow>
               Prompt (s\<lparr>bot := b, compiledBot := compileBot e b, conversation := []\<rparr>)
                 [Info_loaded file]
           | Inl err \<Rightarrow> Prompt s [Error_loading err])
      | Chat line \<Rightarrow> chat_plain e line s)"

text \<open>The handler of a line in the agent variant.\<close>

definition on_line_agent :: "env \<Rightarrow> jsstring option \<Rightarrow> agent_session \<Rightarrow> agent_session outcome" where
  "on_line_agent e input s =
     (case command_of input of
        Exit \<Rightarrow> Closed s
      | Reset \<Rightarrow> Prompt (s\<lparr>conversation := []\<rparr>) []
      | Load file \<Rightarrow>
          (case loadBotDefinition e file of
             Inr b \<Rightarrow>
               Prompt (s\<lparr>bot := b, compiledBot := compileBot e b,
                         agent := createAgent (systemMessage b), conversation := []\<rparr>)
                 [Info_loaded file]
           | Inl err \<Rightarrow> Prompt s [Error_loading err])
      | Chat line \<Rightarrow> chat_agent e line s)"

section \<open>The spec's command dispatch\<close>

text \<open>
  These definitions follow the words of the specification, not the source: a command is
  recognised by the first token of the line that white space delimits. They are compared
  with \<open>command_of\<close> below.
\<close>

definition first_token :: "jsstring \<Rightarrow> jsstring" where
  "first_token line = takeWhile (\<lambda>c. \<not> isWhiteSpace c) (dropWhile isWhiteSpace line)"

datatype command_kind = ExitCommand | ResetCommand | LoadCommand | ChatMessage

definition spec_command :: "jsstring \<Rightarrow> command_kind" where
  "spec_command line =
     (if first_token line = js ''.exit'' then ExitCommand
      else if first_token line = js ''.reset'' then ResetCommand
      else if first_token line = js ''.load'' then LoadCommand
      else ChatMessage)"

fun kind_of :: "command \<Rightarrow> command_kind" where
  "kind_of Exit = ExitCommand"
| "kind_of Reset = ResetCommand"
| "kind_of (Load file) = LoadCommand"
| "kind_of (Chat line) = ChatMessage"

section \<open>A session started from a definition file\<close>

text \<open>
  Modelled from the spec: the rendering of a Handlebars template, a library that is not in
  the repository's files. The specification gives a template one substitution variable,
  \<open>input\<close>; each occurrence of \<^verbatim>\<open>{{input}}\<close> is replaced by the line.
\<close>

function render_template :: "jsstring \<Rightarrow> jsstring \<Rightarrow> jsstring" where
  "render_template [] input = []"
| "render_template (c # cs) input =
     (if take 9 (c # cs) = js ''{{input}}'' then input @ render_template (drop 8 cs) input
      else c # render_template cs input)"
  by pat_completeness auto
termination
  by (relation "measure (\<lambda>(t, input). length t)") auto

text \<open>
  The scenario of the specification: the file \<open>bot.json\<close> holds the definition with system
  message \<open>S\<close> and template \<^verbatim>\<open>Q: {{input}}\<close>, and the model answers \<open>Hi\<close>.
\<close>

definition scenario_text :: jsstring where
  \<open>scenario_text = js ''{"systemMessage": "S", "initialPromptTemplate": "Q: {{input}}"}''\<close>

definition scenario_reply :: message where
  "scenario_reply = AIMessage (js ''Hi'')"

definition scenario_env :: env where
  "scenario_env =
     \<lparr>readFile = (\<lambda>f. if f = js ''bot.json'' then Inr scenario_text else Inl IOError),
      JSON_parse = (\<lambda>t. if t = scenario_text
         then Inr (JObject [(js ''systemMessage'', JString (js ''S'')),
                            (js ''initialPromptTemplate'', JString (js ''Q: {{input}}''))])
         else Inl SyntaxError),
      Handlebars_compile = (\<lambda>t input. Inr (render_template t input)),
      trimMessages = (\<lambda>opts msgs. Inr msgs),
      llm_invoke = (\<lambda>msgs. Inr scenario_reply),
      agent_invoke = (\<lambda>a msgs. Inr (msgs @ [scenario_reply]))\<rparr>"

section \<open>The history trimmer of the specification\<close>

text \<open>
  Modelled from the spec: the selection of the longest suffix of a conversation whose
  measured cost is within the budget. The program gets its trimmer from LangChain's
  \<open>trimMessages\<close>, a library that is not in the repository's files; the source fixes its
  options and its token counter only. The candidates are the suffixes, tried from the
  longest; the cost is the token counter of the source.
\<close>

fun longest_fitting :: "nat \<Rightarrow> message list \<Rightarrow> error + message list" where
  "longest_fitting B [] = Inr []"
| "longest_fitting B (m # ms) =
     (case fst (tokenCounter (m # ms)) of
        Inl e \<Rightarrow> Inl e
      | Inr cost \<Rightarrow> if cost \<le> int B then Inr (m # ms) else longest_fitting B ms)"

text \<open>
  Modelled from the spec: the trimming policy, steps 1 to 4 of the history trimmer, for a
  budget that is a number of tokens. When the most recent message alone exceeds the
  budget it is retained (step 4); otherwise the longest fitting suffix is taken (steps 1
  and 2) and its leading messages are dropped until it begins with a human message or is
  empty (step 3).
\<close>

definition trim_conversation :: "message list \<Rightarrow> nat \<Rightarrow> error + message list" where
  "trim_conversation c B =
     (if c = [] then Inr []
      else case fst (tokenCounter [last c]) of
             Inl e \<Rightarrow> Inl e
           | Inr cost \<Rightarrow>
               if cost > int B then Inr [last c]
               else (case longest_fitting B c of
                       Inl e \<Rightarrow> Inl e
                     | Inr w \<Rightarrow> Inr (dropWhile (\<lambda>m. role m \<noteq> Human) w)))"

section \<open>Pieces and words of a string\<close>

lemma splitFrom_length: "length (splitFrom p s) = length (splitFrom q s)"
  by (induction s arbitrary: p q) auto

lemma splitFrom_nonempty: "1 \<le> length (splitFrom p s)"
  by (induction p s rule: splitFrom.induct) auto

lemma split_whitespace_nonempty: "1 \<le> length (split_whitespace s)"
  using splitFrom_nonempty[of "[]" s] by (simp add: split_whitespace_def)

lemma count_words_dropWhile: "count_words (dropWhile isWhiteSpace s) = count_words s"
  by (induction s) auto

lemma last_dropWhile_nonempty: "dropWhile P xs \<noteq> [] \<Longrightarrow> last (dropWhile P xs) = last xs"
  by (induction xs) (auto split: if_splits)

lemma dropWhile_Nil_last: "dropWhile P xs = [] \<Longrightarrow> P c \<Longrightarrow> P (last (c # xs))"
  by (induction xs arbitrary: c) (auto split: if_splits)

lemma edge_after_space:
  assumes "isWhiteSpace c"
  shows "edge_pieces (dropWhile isWhiteSpace cs) = (if isWhiteSpace (last (c # cs)) then 1 else 0)"
proof (cases "dropWhile isWhiteSpace cs = []")
  case True
  then have "isWhiteSpace (last (c # cs))"
    using assms by (rule dropWhile_Nil_last)
  with True show ?thesis by (simp add: edge_pieces_def)
next
  case False
  then have hd: "\<not> isWhiteSpace (hd (dropWhile isWhiteSpace cs))"
    by (simp add: hd_dropWhile)
  from False have ne: "cs \<noteq> []" by auto
  from False have "last (dropWhile isWhiteSpace cs) = last cs"
    by (rule last_dropWhile_nonempty)
  with hd ne False show ?thesis by (simp add: edge_pieces_def)
qed

text \<open>The pieces of a string are its words and its edge pieces.\<close>

lemma length_splitFrom: "length (splitFrom p s) = count_words s + edge_pieces s"
proof (induction p s rule: splitFrom.induct)
  case (1 piece)
  show ?case by (simp add: edge_pieces_def)
next
  case (2 piece c cs)
  show ?case
  proof (cases "isWhiteSpace c")
    case True
    with 2 have "length (splitFrom piece (c # cs))
        = Suc (count_words (dropWhile isWhiteSpace cs) + edge_pieces (dropWhile isWhiteSpace cs))"
      by simp
    also have "\<dots> = Suc (count_words cs + (if isWhiteSpace (last (c # cs)) then 1 else 0))"
      using True by (simp only: count_words_dropWhile edge_after_space)
    also have "\<dots> = count_words (c # cs) + edge_pieces (c # cs)"
      using True by (simp add: edge_pieces_def)
    finally show ?thesis .
  next
    case False
    with 2 have ih: "length (splitFrom piece (c # cs)) = count_words cs + edge_pieces cs"
      by simp
    show ?thesis
    proof (cases cs)
      case Nil
      with ih False show ?thesis by (simp add: edge_pieces_def)
    next
      case (Cons h t)
      with ih False show ?thesis by (simp add: edge_pieces_def)
    qed
  qed
qed

section \<open>The token estimator\<close>

lemma estimateTokens_value:
  "fst (contentToString c) = Some s \<Longrightarrow> fst (estimateTokens c) = Inr (length (split_whitespace s))"
  by (cases "contentToString c") (simp add: estimateTokens_def)

lemma estimateTokens_undefined:
  "fst (contentToString c) = None \<Longrightarrow> fst (estimateTokens c) = Inl TypeError"
  by (cases "contentToString c") (simp add: estimateTokens_def)

text \<open>Whenever the estimator returns, it returns at least 1.\<close>

lemma estimateTokens_positive: "fst (estimateTokens c) = Inr n \<Longrightarrow> 1 \<le> n"
  using split_whitespace_nonempty
  by (cases "contentToString c"; cases "fst (contentToString c)")
     (auto simp: estimateTokens_def)

text \<open>
  Claim C10: for every content value the estimator returns at least 1. The code does not
  return for a content made of blocks none of which is supported, the empty array among
  them: \<open>contentToString\<close> gives \<^verbatim>\<open>undefined\<close>, \<open>estimateTokens\<close> raises a TypeError,
  and so does the token counter on a conversation that holds such a message.
\<close>

theorem estimateTokens_no_supported_block:
  "estimateTokens (Blocks []) = (Inl TypeError, [])
   \<and> estimateTokens (Blocks [OtherBlock (js ''tool_use'')])
       = (Inl TypeError, [Warn_unsupported_content (js ''tool_use'')])
   \<and> fst (tokenCounter [\<lparr>role = AI, content = Blocks [], response_metadata = NoTokenUsage\<rparr>])
       = Inl TypeError"
  by (simp add: estimateTokens_def contentToString_def at_index_def JSON_stringify_def
        tokenCounter_def reducer_def addEstimate_def)

section \<open>The token counter\<close>

lemma reducer_numeric:
  "response_metadata m = TotalTokens (Num u) \<Longrightarrow> reducer t m = (Inr (max t u), [])"
  by (simp add: reducer_def max_def)

lemma reducer_estimate:
  assumes "\<forall>u. response_metadata m \<noteq> TotalTokens (Num u)"
    and "fst (estimateTokens (content m)) = Inr n"
  shows "fst (reducer t m) = Inr (t + int n)"
  using assms
  by (cases "estimateTokens (content m)")
     (auto simp: reducer_def addEstimate_def split: token_usage.splits js_number.splits)

lemma reducer_invalid_logged:
  "response_metadata m = TotalTokens NaN \<Longrightarrow> Warn_invalid_token_count \<in> set (snd (reducer t m))"
  by (cases "estimateTokens (content m)")
     (auto simp: reducer_def addEstimate_def split: sum.splits)

lemma reduce_append:
  "reduce (xs @ ys) t logs =
     (case reduce xs t logs of (Inl e, l) \<Rightarrow> (Inl e, l) | (Inr t', l) \<Rightarrow> reduce ys t' l)"
  by (induction xs arbitrary: t logs) (auto split: prod.splits sum.splits)

lemma tokenCounter_reduce:
  "fst (tokenCounter msgs) = Inr running \<longleftrightarrow> (\<exists>l. reduce msgs 0 [] = (Inr running, l))"
  by (cases "reduce msgs 0 []") (auto simp: tokenCounter_def split: sum.splits)

lemma tokenCounter_snoc:
  assumes "fst (tokenCounter msgs) = Inr running"
  shows "fst (tokenCounter (msgs @ [m])) = fst (reducer running m)"
proof -
  from assms obtain l where "reduce msgs 0 [] = (Inr running, l)"
    by (auto simp: tokenCounter_reduce)
  then show ?thesis
    by (cases "reducer running m")
       (auto simp: tokenCounter_def reduce_append split: sum.splits)
qed

lemma tokenCounter_snoc_logs:
  assumes "fst (tokenCounter msgs) = Inr running"
  shows "set (snd (reducer running m)) \<subseteq> set (snd (tokenCounter (msgs @ [m])))"
proof -
  from assms obtain l where "reduce msgs 0 [] = (Inr running, l)"
    by (auto simp: tokenCounter_reduce)
  then show ?thesis
    by (cases "reducer running m")
       (auto simp: tokenCounter_def reduce_append split: sum.splits)
qed

lemma reduce_no_usage:
  assumes "list_all2 (\<lambda>m n. fst (estimateTokens (content m)) = Inr n) msgs ns"
    and "\<forall>m\<in>set msgs. \<forall>u. response_metadata m \<noteq> TotalTokens (Num u)"
  shows "fst (reduce msgs t logs) = Inr (t + int (sum_list ns))"
  using assms
proof (induction msgs ns arbitrary: t logs rule: list_all2_induct)
  case Nil
  show ?case by simp
next
  case (Cons m msgs n ns)
  then have "fst (reducer t m) = Inr (t + int n)"
    by (simp add: reducer_estimate)
  then obtain l where "reducer t m = (Inr (t + int n), l)"
    by (cases "reducer t m") auto
  with Cons show ?case by (simp add: add.assoc)
qed

text \<open>
  Claim C2: the measure of a conversation is a running total over its messages in order,
  starting at 0. A message with a numeric reported usage \<open>u\<close> makes the total
  \<open>max total u\<close>, which is never below the total before it; every other message adds its
  estimate; and a reported usage that is not a number is logged and the estimate is used.
  The running total after a prefix is the measure of the prefix.
\<close>

theorem tokenCounter_running_total:
  assumes "fst (tokenCounter msgs) = Inr running"
  shows "fst (tokenCounter []) = Inr 0
    \<and> (\<forall>u. response_metadata m = TotalTokens (Num u) \<longrightarrow>
          fst (tokenCounter (msgs @ [m])) = Inr (max running u) \<and> running \<le> max running u)
    \<and> (\<forall>n. (\<forall>u. response_metadata m \<noteq> TotalTokens (Num u))
            \<and> fst (estimateTokens (content m)) = Inr n \<longrightarrow>
          fst (tokenCounter (msgs @ [m])) = Inr (running + int n))
    \<and> (response_metadata m = TotalTokens NaN \<longrightarrow>
          Warn_invalid_token_count \<in> set (snd (tokenCounter (msgs @ [m]))))"
proof (intro conjI allI impI)
  show "fst (tokenCounter []) = Inr 0" by (simp add: tokenCounter_def)
next
  fix u assume "response_metadata m = TotalTokens (Num u)"
  then show "fst (tokenCounter (msgs @ [m])) = Inr (max running u)"
    using assms by (simp add: tokenCounter_snoc reducer_numeric)
next
  fix u show "running \<le> max running u" by simp
next
  fix n
  assume "(\<forall>u. response_metadata m \<noteq> TotalTokens (Num u))
            \<and> fst (estimateTokens (content m)) = Inr n"
  then show "fst (tokenCounter (msgs @ [m])) = Inr (running + int n)"
    using assms by (simp add: tokenCounter_snoc reducer_estimate)
next
  assume "response_metadata m = TotalTokens NaN"
  then show "Warn_invalid_token_count \<in> set (snd (tokenCounter (msgs @ [m])))"
    using assms tokenCounter_snoc_logs[of msgs running m] reducer_invalid_logged[of m running]
    by blast
qed

theorem tokenCounter_running_total_witness:
  "fst (tokenCounter [HumanMessage (js ''a b c'')]) = Inr 3
   \<and> fst (tokenCounter ([HumanMessage (js ''a b c'')]
        @ [\<lparr>role = AI, content = PlainText (js ''d''), response_metadata = TotalTokens (Num 2)\<rparr>]))
       = Inr 3
   \<and> fst (tokenCounter ([HumanMessage (js ''a b c'')]
        @ [\<lparr>role = AI, content = PlainText (js ''d''), response_metadata = TotalTokens (Num 10)\<rparr>]))
       = Inr 10
   \<and> fst (tokenCounter ([HumanMessage (js ''a b c'')] @ [HumanMessage (js ''d e'')])) = Inr 5
   \<and> fst (tokenCounter ([HumanMessage (js ''a b c'')]
        @ [\<lparr>role = AI, content = PlainText (js ''d''), response_metadata = TotalTokens NaN\<rparr>]))
       = Inr 4
   \<and> Warn_invalid_token_count \<in> set (snd (tokenCounter ([HumanMessage (js ''a b c'')]
        @ [\<lparr>role = AI, content = PlainText (js ''d''), response_metadata = TotalTokens NaN\<rparr>])))"
proof -
  have h: "fst (tokenCounter [HumanMessage (js ''a b c'')]) = Inr 3"
    by (simp add: tokenCounter_def reducer_def addEstimate_def estimateTokens_def
          contentToString_def split_whitespace_def HumanMessage_def js_def isWhiteSpace_def)
  have e1: "fst (estimateTokens (PlainText (js ''d e''))) = Inr 2"
    by (simp add: estimateTokens_def contentToString_def split_whitespace_def js_def
          isWhiteSpace_def)
  have e2: "fst (estimateTokens (PlainText (js ''d''))) = Inr 1"
    by (simp add: estimateTokens_def contentToString_def split_whitespace_def js_def
          isWhiteSpace_def)
  show ?thesis
    using h e1 e2
      tokenCounter_running_total [OF h,
        of "\<lparr>role = AI, content = PlainText (js ''d''), response_metadata = TotalTokens (Num 2)\<rparr>"]
      tokenCounter_running_total [OF h,
        of "\<lparr>role = AI, content = PlainText (js ''d''), response_metadata = TotalTokens (Num 10)\<rparr>"]
      tokenCounter_running_total [OF h, of "HumanMessage (js ''d e'')"]
      tokenCounter_running_total [OF h,
        of "\<lparr>role = AI, content = PlainText (js ''d''), response_metadata = TotalTokens NaN\<rparr>"]
    by (simp add: HumanMessage_def)
qed

text \<open>
  Claim C5, as stated: the estimate of a content is the number of white-space delimited
  tokens of its normalised string. It is not: the empty string has no token and the
  estimate 1, and \<open>hi\<close> between two spaces has one token and the estimate 3.
\<close>

theorem estimateTokens_not_word_count:
  "fst (estimateTokens (PlainText [])) \<noteq> Inr (count_words [])
   \<and> fst (estimateTokens (PlainText (js '' hi ''))) \<noteq> Inr (count_words (js '' hi ''))"
  by (simp add: estimateTokens_def contentToString_def split_whitespace_def js_def
        isWhiteSpace_def)

text \<open>
  Claim C5, amended: for a content that normalises to a string, the estimate is the number
  of white-space delimited tokens of that string plus its edge pieces (one for the empty
  string, otherwise one for leading and one for trailing white space); and for a
  conversation in which no message carries a numeric reported usage and every message has
  an estimate, the measure is the sum of the estimates.
\<close>

theorem estimateTokens_pieces:
  "(\<forall>s. fst (contentToString c) = Some s \<longrightarrow>
      fst (estimateTokens c) = Inr (count_words s + edge_pieces s))
   \<and> (list_all2 (\<lambda>m n. fst (estimateTokens (content m)) = Inr n) msgs ns
      \<and> (\<forall>m\<in>set msgs. \<forall>u. response_metadata m \<noteq> TotalTokens (Num u)) \<longrightarrow>
      fst (tokenCounter msgs) = Inr (int (sum_list ns)))"
proof (intro conjI allI impI)
  fix s assume "fst (contentToString c) = Some s"
  then show "fst (estimateTokens c) = Inr (count_words s + edge_pieces s)"
    by (simp add: estimateTokens_value split_whitespace_def length_splitFrom)
next
  assume a: "list_all2 (\<lambda>m n. fst (estimateTokens (content m)) = Inr n) msgs ns
      \<and> (\<forall>m\<in>set msgs. \<forall>u. response_metadata m \<noteq> TotalTokens (Num u))"
  then have "fst (reduce msgs 0 []) = Inr (0 + int (sum_list ns))"
    by (intro reduce_no_usage) auto
  then show "fst (tokenCounter msgs) = Inr (int (sum_list ns))"
    by (cases "reduce msgs 0 []") (auto simp: tokenCounter_def)
qed

theorem estimateTokens_pieces_witness:
  "fst (contentToString (PlainText (js '' hi there ''))) = Some (js '' hi there '')
   \<and> count_words (js '' hi there '') = 2 \<and> edge_pieces (js '' hi there '') = 2
   \<and> fst (estimateTokens (PlainText (js '' hi there ''))) = Inr 4
   \<and> list_all2 (\<lambda>m n. fst (estimateTokens (content m)) = Inr n)
        [HumanMessage (js ''a b c''), HumanMessage []] [3, 1]
   \<and> fst (tokenCounter [HumanMessage (js ''a b c''), HumanMessage []]) = Inr 4"
proof -
  have c: "fst (contentToString (PlainText (js '' hi there ''))) = Some (js '' hi there '')"
    by (simp add: contentToString_def)
  have w: "count_words (js '' hi there '') = 2" "edge_pieces (js '' hi there '') = 2"
    by (simp_all add: js_def isWhiteSpace_def edge_pieces_def)
  have l: "list_all2 (\<lambda>m n. fst (estimateTokens (content m)) = Inr n)
        [HumanMessage (js ''a b c''), HumanMessage []] [3, 1]"
    by (simp add: estimateTokens_def contentToString_def split_whitespace_def
          HumanMessage_def js_def isWhiteSpace_def)
  have u: "\<forall>m\<in>set [HumanMessage (js ''a b c''), HumanMessage []].
             \<forall>u. response_metadata m \<noteq> TotalTokens (Num u)"
    by (simp add: HumanMessage_def)
  show ?thesis
    using c w l u
      estimateTokens_pieces [of "PlainText (js '' hi there '')"
        "[HumanMessage (js ''a b c''), HumanMessage []]" "[3, 1]"]
    by simp
qed


section \<open>The history trimmer\<close>

text \<open>The running total grows with its starting value and is never below it.\<close>

lemma reducer_mono:
  "t \<le> t' \<Longrightarrow> rel_sum (\<lambda>e e'. True) (\<le>) (fst (reducer t m)) (fst (reducer t' m))"
  by (cases "estimateTokens (content m)"; cases "fst (estimateTokens (content m))")
     (auto simp: reducer_def addEstimate_def split: token_usage.splits js_number.splits)

lemma reducer_ge: "fst (reducer t m) = Inr x \<Longrightarrow> t \<le> x"
  by (cases "estimateTokens (content m)"; cases "fst (estimateTokens (content m))")
     (auto simp: reducer_def addEstimate_def split: token_usage.splits js_number.splits if_splits)

lemma reduce_mono:
  "t \<le> t' \<Longrightarrow> rel_sum (\<lambda>e e'. True) (\<le>) (fst (reduce ms t l)) (fst (reduce ms t' l'))"
proof (induction ms arbitrary: t t' l l')
  case Nil
  then show ?case by simp
next
  case (Cons m ms)
  obtain r k where s: "reducer t m = (r, k)" by (cases "reducer t m")
  obtain r' k' where s': "reducer t' m = (r', k')" by (cases "reducer t' m")
  from Cons.prems have rel: "rel_sum (\<lambda>e e'. True) (\<le>) r r'"
    using reducer_mono[of t t' m] s s' by simp
  show ?case
  proof (cases r)
    case (Inl e)
    with rel obtain e' where "r' = Inl e'" by (cases r') auto
    with Inl s s' show ?thesis by simp
  next
    case (Inr x)
    with rel obtain x' where x': "r' = Inr x'" "x \<le> x'" by (cases r') auto
    with Inr s s' Cons.IH[of x x' "l @ k" "l' @ k'"] show ?thesis by simp
  qed
qed

lemma reduce_ge: "fst (reduce ms t l) = Inr a \<Longrightarrow> t \<le> a"
proof (induction ms arbitrary: t l)
  case Nil
  then show ?case by simp
next
  case (Cons m ms)
  obtain r k where s: "reducer t m = (r, k)" by (cases "reducer t m")
  show ?case
  proof (cases r)
    case (Inl e)
    with s Cons.prems show ?thesis by simp
  next
    case (Inr x)
    with s have "t \<le> x" using reducer_ge[of t m x] by simp
    moreover from Inr s Cons.prems have "x \<le> a" using Cons.IH[of x "l @ k"] by simp
    ultimately show ?thesis by simp
  qed
qed

lemma tokenCounter_fst: "fst (tokenCounter ms) = fst (reduce ms 0 [])"
  by (cases "reduce ms 0 []") (auto simp: tokenCounter_def split: sum.splits)

lemma tokenCounter_suffix:
  assumes "fst (tokenCounter (xs @ ys)) = Inr a"
  shows "\<exists>b. fst (tokenCounter ys) = Inr b \<and> b \<le> a"
proof -
  obtain r l where x: "reduce xs 0 [] = (r, l)" by (cases "reduce xs 0 []")
  from assms have whole: "fst (reduce (xs @ ys) 0 []) = Inr a" by (simp add: tokenCounter_fst)
  show ?thesis
  proof (cases r)
    case (Inl e)
    with x whole show ?thesis by (simp add: reduce_append)
  next
    case (Inr t)
    with x whole have run: "fst (reduce ys t l) = Inr a" by (simp add: reduce_append)
    from Inr x have "0 \<le> t" using reduce_ge[of xs 0 "[]" t] by simp
    then have "rel_sum (\<lambda>e e'. True) (\<le>) (fst (reduce ys 0 [])) (fst (reduce ys t l))"
      by (rule reduce_mono)
    with run obtain b where "fst (reduce ys 0 []) = Inr b" "b \<le> a"
      by (cases "fst (reduce ys 0 [])") auto
    then show ?thesis by (simp add: tokenCounter_fst)
  qed
qed


lemma longest_fitting_fits:
  "longest_fitting B c = Inr w \<Longrightarrow> w \<noteq> [] \<Longrightarrow> \<exists>t. fst (tokenCounter w) = Inr t \<and> t \<le> int B"
  by (induction c) (auto split: sum.splits if_splits)

lemma longest_fitting_total:
  "fst (tokenCounter c) = Inr t \<Longrightarrow> \<exists>w. longest_fitting B c = Inr w"
proof (induction c arbitrary: t)
  case Nil
  then show ?case by simp
next
  case (Cons m ms)
  from Cons.prems obtain b where "fst (tokenCounter ms) = Inr b"
    using tokenCounter_suffix[of "[m]" ms t] by auto
  then obtain w where "longest_fitting B ms = Inr w" using Cons.IH by blast
  with Cons.prems show ?case by simp
qed

lemma longest_fitting_last:
  assumes "c \<noteq> []" and "fst (tokenCounter [last c]) = Inr t" and "t \<le> int B"
    and "longest_fitting B c = Inr w"
  shows "w \<noteq> [] \<and> last w = last c"
  using assms
proof (induction c)
  case Nil
  then show ?case by simp
next
  case (Cons m ms)
  show ?case
  proof (cases "ms = []")
    case True
    with Cons.prems show ?thesis by (auto split: sum.splits if_splits)
  next
    case False
    show ?thesis
    proof (cases "longest_fitting B ms = Inr w")
      case True
      with False Cons show ?thesis by simp
    next
      case no: False
      with Cons.prems have "w = m # ms" by (auto split: sum.splits if_splits)
      then show ?thesis by simp
    qed
  qed
qed

lemma longest_fitting_fixed:
  "fst (tokenCounter w) = Inr t \<Longrightarrow> t \<le> int B \<Longrightarrow> longest_fitting B w = Inr w"
  by (cases w) auto

lemma dropWhile_suffix: "\<exists>xs. w = xs @ dropWhile P w"
  by (metis takeWhile_dropWhile_id)

lemma trim_conversation_cases:
  assumes "trim_conversation c B = Inr r"
  obtains (empty) "c = []" "r = []"
    | (irreducible) t where "c \<noteq> []" "fst (tokenCounter [last c]) = Inr t" "int B < t"
        "r = [last c]"
    | (window) t w where "c \<noteq> []" "fst (tokenCounter [last c]) = Inr t" "t \<le> int B"
        "longest_fitting B c = Inr w" "r = dropWhile (\<lambda>m. role m \<noteq> Human) w"
  using assms
  by (auto simp: trim_conversation_def split: if_splits sum.splits)


lemma trim_conversation_idem:
  assumes "trim_conversation c B = Inr r"
  shows "trim_conversation r B = Inr r"
  using assms
proof (cases rule: trim_conversation_cases)
  case empty
  then show ?thesis by (simp add: trim_conversation_def)
next
  case (irreducible t)
  then show ?thesis by (simp add: trim_conversation_def)
next
  case (window t w)
  show ?thesis
  proof (cases "r = []")
    case True
    then show ?thesis by (simp add: trim_conversation_def)
  next
    case False
    from window have w: "w \<noteq> []" "last w = last c"
      using longest_fitting_last[of c t B w] by simp_all
    obtain xs where xs: "w = xs @ r" using dropWhile_suffix window(5) by blast
    with False w have last: "last r = last c" by simp
    from w obtain a where a: "fst (tokenCounter w) = Inr a" "a \<le> int B"
      using longest_fitting_fits window by blast
    with xs obtain b where b: "fst (tokenCounter r) = Inr b" "b \<le> a"
      using tokenCounter_suffix[of xs r a] by auto
    with a have fixed: "longest_fitting B r = Inr r"
      by (intro longest_fitting_fixed[of r b]) auto
    from False window(5) have "role (hd r) = Human"
      using hd_dropWhile[of "\<lambda>m. role m \<noteq> Human" w] by auto
    with False have "dropWhile (\<lambda>m. role m \<noteq> Human) r = r"
      by (cases r) auto
    with False last window(2,3) fixed show ?thesis
      by (simp add: trim_conversation_def)
  qed
qed

lemma trim_conversation_total:
  assumes "fst (tokenCounter c) = Inr t"
  shows "\<exists>r. trim_conversation c B = Inr r"
proof (cases "c = []")
  case True
  then show ?thesis by (simp add: trim_conversation_def)
next
  case False
  then have "c = butlast c @ [last c]" by simp
  with assms obtain b where "fst (tokenCounter [last c]) = Inr b"
    using tokenCounter_suffix[of "butlast c" "[last c]" t] by auto
  moreover obtain w where "longest_fitting B c = Inr w"
    using longest_fitting_total assms by blast
  ultimately show ?thesis using False by (simp add: trim_conversation_def)
qed




text \<open>A conversation of three messages, with costs 1, 2 and 1, and its trimmings.\<close>

lemma example_costs:
  "fst (tokenCounter [HumanMessage (js ''d'')]) = Inr 1"
  "fst (tokenCounter [AIMessage (js ''b c''), HumanMessage (js ''d'')]) = Inr 3"
  "fst (tokenCounter [HumanMessage (js ''a''), AIMessage (js ''b c''), HumanMessage (js ''d'')])
     = Inr 4"
  "fst (tokenCounter [AIMessage (js ''b c'')]) = Inr 2"
  by (simp_all add: tokenCounter_def reducer_def addEstimate_def estimateTokens_def
        contentToString_def split_whitespace_def HumanMessage_def AIMessage_def js_def
        isWhiteSpace_def)

lemma example_roles:
  "role (HumanMessage t) = Human" "role (AIMessage t) \<noteq> Human"
  by (simp_all add: HumanMessage_def AIMessage_def)

lemma example_trim:
  "trim_conversation [HumanMessage (js ''a''), AIMessage (js ''b c''), HumanMessage (js ''d'')] 3
     = Inr [HumanMessage (js ''d'')]"
  by (simp add: trim_conversation_def example_costs example_roles)









text \<open>
  Claim C6: trimming is idempotent. Whenever the conversation can be measured trimming
  returns, and trimming what it returned with the same budget returns it again.
\<close>

theorem trim_conversation_idempotent:
  "(\<forall>t. fst (tokenCounter c) = Inr t \<longrightarrow> (\<exists>r. trim_conversation c B = Inr r))
   \<and> (\<forall>r. trim_conversation c B = Inr r \<longrightarrow> trim_conversation r B = Inr r)"
  using trim_conversation_total trim_conversation_idem by blast

theorem trim_conversation_idempotent_witness:
  "fst (tokenCounter [HumanMessage (js ''a''), AIMessage (js ''b c''), HumanMessage (js ''d'')])
     = Inr 4
   \<and> trim_conversation
        [HumanMessage (js ''a''), AIMessage (js ''b c''), HumanMessage (js ''d'')] 3
       = Inr [HumanMessage (js ''d'')]
   \<and> trim_conversation [HumanMessage (js ''d'')] 3 = Inr [HumanMessage (js ''d'')]"
  using example_costs example_trim
    trim_conversation_idempotent
      [of "[HumanMessage (js ''a''), AIMessage (js ''b c''), HumanMessage (js ''d'')]" 3]
  by simp

section \<open>Command dispatch\<close>

lemma trim_suffix:
  "\<exists>w. dropWhile isWhiteSpace line = trim line @ w \<and> (\<forall>c\<in>set w. isWhiteSpace c)"
proof -
  let ?d = "dropWhile isWhiteSpace line"
  have "rev (takeWhile isWhiteSpace (rev ?d) @ dropWhile isWhiteSpace (rev ?d)) = rev (rev ?d)"
    by (simp only: takeWhile_dropWhile_id)
  then have "rev (dropWhile isWhiteSpace (rev ?d)) @ rev (takeWhile isWhiteSpace (rev ?d)) = ?d"
    by (simp only: rev_append rev_rev_ident)
  then have "?d = trim line @ rev (takeWhile isWhiteSpace (rev ?d))"
    by (simp only: trim_def)
  moreover have "\<forall>c\<in>set (rev (takeWhile isWhiteSpace (rev ?d))). isWhiteSpace c"
    by (auto dest: set_takeWhileD)
  ultimately show ?thesis by blast
qed

lemma takeWhile_none: "\<forall>c\<in>set w. \<not> P c \<Longrightarrow> takeWhile P w = []"
  by (cases w) auto

lemma takeWhile_append_none: "\<forall>c\<in>set w. \<not> P c \<Longrightarrow> takeWhile P (t @ w) = takeWhile P t"
  by (induction t) (auto simp: takeWhile_none)

lemma first_token_trim: "first_token line = takeWhile (\<lambda>c. \<not> isWhiteSpace c) (trim line)"
proof -
  obtain w where "dropWhile isWhiteSpace line = trim line @ w" "\<forall>c\<in>set w. isWhiteSpace c"
    using trim_suffix by blast
  then show ?thesis
    by (simp add: first_token_def takeWhile_append_none)
qed

lemma splitOn_hd: "hd (splitOn sep p s) = p @ takeWhile (\<lambda>c. c \<noteq> sep) s"
  by (induction s arbitrary: p) auto

lemma splitOn_nonempty: "splitOn sep p s \<noteq> []"
  by (induction s arbitrary: p) auto

lemma splitOn_first: "at_index (splitOn sep p s) 0 = Some (p @ takeWhile (\<lambda>c. c \<noteq> sep) s)"
  using splitOn_nonempty[of sep p s] splitOn_hd[of sep p s]
  by (simp add: at_index_def hd_conv_nth)

lemma takeWhile_upto_separator:
  assumes "sep \<notin> set l"
  shows "takeWhile (\<lambda>c. c \<noteq> sep) t = l \<longleftrightarrow> t = l \<or> (\<exists>r. t = l @ sep # r)"
proof
  assume tw: "takeWhile (\<lambda>c. c \<noteq> sep) t = l"
  have t: "t = l @ dropWhile (\<lambda>c. c \<noteq> sep) t"
    using takeWhile_dropWhile_id[of "\<lambda>c. c \<noteq> sep" t] tw by simp
  show "t = l \<or> (\<exists>r. t = l @ sep # r)"
  proof (cases "dropWhile (\<lambda>c. c \<noteq> sep) t")
    case Nil
    with t show ?thesis by simp
  next
    case (Cons x r)
    then have "x = sep" using hd_dropWhile[of "\<lambda>c. c \<noteq> sep" t] by auto
    with t Cons show ?thesis by auto
  qed
next
  from assms have l: "\<And>x. x \<in> set l \<Longrightarrow> x \<noteq> sep" by auto
  assume "t = l \<or> (\<exists>r. t = l @ sep # r)"
  then show "takeWhile (\<lambda>c. c \<noteq> sep) t = l"
  proof
    assume "t = l"
    with l show ?thesis by simp
  next
    assume "\<exists>r. t = l @ sep # r"
    then obtain r where "t = l @ sep # r" by blast
    with l show ?thesis by (simp add: takeWhile_append2)
  qed
qed

lemma load_prefix:
  "at_index (split_space t) 0 = Some (js ''.load'')
     \<longleftrightarrow> t = js ''.load'' \<or> (\<exists>rest. t = js ''.load'' @ [0x20] @ rest)"
proof -
  have "(0x20 :: jschar) \<notin> set (js ''.load'')" by (simp add: js_def)
  then show ?thesis
    by (simp add: split_space_def splitOn_first takeWhile_upto_separator)
qed

lemma literal_tokens:
  "takeWhile (\<lambda>c. \<not> isWhiteSpace c) (js ''.exit'') = js ''.exit''"
  "takeWhile (\<lambda>c. \<not> isWhiteSpace c) (js ''.reset'') = js ''.reset''"
  "takeWhile (\<lambda>c. \<not> isWhiteSpace c) (js ''.load'') = js ''.load''"
  "takeWhile (\<lambda>c. \<not> isWhiteSpace c) (js ''.load'' @ [0x20] @ rest) = js ''.load''"
  by (simp_all add: js_def isWhiteSpace_def)

lemma literals_differ:
  "js ''.exit'' \<noteq> js ''.reset''" "js ''.exit'' \<noteq> js ''.load''" "js ''.reset'' \<noteq> js ''.load''"
  "js ''.exit'' \<noteq> js ''.load'' @ [0x20] @ rest" "js ''.reset'' \<noteq> js ''.load'' @ [0x20] @ rest"
  by (simp_all add: js_def)

text \<open>
  Claim C8, as stated: a command is recognised by the first token of the line that white
  space delimits. The line \<open>.exit now\<close> has the first token \<open>.exit\<close>, and the handler
  takes it as a chat message.
\<close>

theorem command_of_not_first_token:
  "kind_of (command_of (Some (js ''.exit now''))) = ChatMessage
   \<and> spec_command (js ''.exit now'') = ExitCommand"
  by (simp add: command_of_def spec_command_def first_token_def trim_def split_space_def
        at_index_def js_def isWhiteSpace_def)

lemma at_index_Cons_Suc: "at_index (x # xs) (Suc n) = at_index xs n"
  by (simp add: at_index_def)

lemma load_path:
  "at_index (split_space (js ''.load'')) (Suc 0) = None"
  "at_index (split_space (js ''.load'' @ [0x20] @ rest)) (Suc 0)
     = Some (takeWhile (\<lambda>c. c \<noteq> 0x20) rest)"
  by (simp_all add: split_space_def js_def at_index_Cons_Suc splitOn_first)
     (simp add: at_index_def)

text \<open>
  Claim C8, amended: a line is the exit or the reset command exactly when the whole line,
  trimmed of white space, is \<open>.exit\<close> or \<open>.reset\<close>; it is a load command exactly when
  the trimmed line is \<open>.load\<close>, and then it names no file, or begins with \<open>.load\<close> and a
  space character, and then the file it names is the text between that space and the next
  space (or the end of the trimmed line); every other line is a chat message, passed on
  untrimmed. Matching is case sensitive, and every line taken as a command is that command
  by its first white-space delimited token.
\<close>

theorem command_of_cases:
  "(command_of (Some line) = Exit \<longleftrightarrow> trim line = js ''.exit'')
   \<and> (command_of (Some line) = Reset \<longleftrightarrow> trim line = js ''.reset'')
   \<and> ((\<exists>file. command_of (Some line) = Load file) \<longleftrightarrow>
        trim line = js ''.load'' \<or> (\<exists>rest. trim line = js ''.load'' @ [0x20] @ rest))
   \<and> (trim line = js ''.load'' \<longrightarrow> command_of (Some line) = Load None)
   \<and> (\<forall>rest. trim line = js ''.load'' @ [0x20] @ rest \<longrightarrow>
        command_of (Some line) = Load (Some (takeWhile (\<lambda>c. c \<noteq> 0x20) rest)))
   \<and> (kind_of (command_of (Some line)) = ChatMessage \<longrightarrow> command_of (Some line) = Chat line)
   \<and> (kind_of (command_of (Some line)) \<noteq> ChatMessage \<longrightarrow>
        spec_command line = kind_of (command_of (Some line)))"
proof (intro conjI allI impI)
  show "command_of (Some line) = Exit \<longleftrightarrow> trim line = js ''.exit''"
    by (simp add: command_of_def)
  show "command_of (Some line) = Reset \<longleftrightarrow> trim line = js ''.reset''"
    using literals_differ by (simp add: command_of_def)
  show "(\<exists>file. command_of (Some line) = Load file) \<longleftrightarrow>
        trim line = js ''.load'' \<or> (\<exists>rest. trim line = js ''.load'' @ [0x20] @ rest)"
    using literals_differ load_prefix[of "trim line"]
    by (auto simp: command_of_def)
next
  assume t: "trim line = js ''.load''"
  then have "at_index (split_space (trim line)) 0 = Some (js ''.load'')"
    by (simp only: load_prefix) simp
  with t show "command_of (Some line) = Load None"
    using literals_differ(2,3) by (simp add: command_of_def load_path)
next
  fix rest assume t: "trim line = js ''.load'' @ [0x20] @ rest"
  then have "at_index (split_space (trim line)) 0 = Some (js ''.load'')"
    by (simp only: load_prefix) blast
  with t show "command_of (Some line) = Load (Some (takeWhile (\<lambda>c. c \<noteq> 0x20) rest))"
    using literals_differ(4,5)[of rest] load_path(2)[of rest]
    by (simp add: command_of_def)
next
  assume "kind_of (command_of (Some line)) = ChatMessage"
  then show "command_of (Some line) = Chat line"
    by (simp add: command_of_def split: if_splits)
next
  assume cmd: "kind_of (command_of (Some line)) \<noteq> ChatMessage"
  consider (exit) "trim line = js ''.exit''"
    | (reset) "trim line = js ''.reset''"
    | (load) "trim line \<noteq> js ''.exit''" "trim line \<noteq> js ''.reset''"
        "at_index (split_space (trim line)) 0 = Some (js ''.load'')"
    using cmd by (auto simp: command_of_def split: if_splits)
  then show "spec_command line = kind_of (command_of (Some line))"
  proof cases
    case exit
    then show ?thesis
      by (simp add: command_of_def spec_command_def first_token_trim literal_tokens)
  next
    case reset
    then show ?thesis
      using literals_differ(1)
      by (simp add: command_of_def spec_command_def first_token_trim literal_tokens)
  next
    case load
    then have "trim line = js ''.load'' \<or> (\<exists>rest. trim line = js ''.load'' @ [0x20] @ rest)"
      by (simp only: load_prefix)
    then have "first_token line = js ''.load''"
      using literal_tokens(3,4) by (auto simp only: first_token_trim)
    with load show ?thesis
      using literals_differ(2,3)
      by (simp add: command_of_def spec_command_def)
  qed
qed

theorem command_of_cases_witness:
  "trim (js ''  .load a.json b.json '') = js ''.load'' @ [0x20] @ js ''a.json b.json''
   \<and> command_of (Some (js ''  .load a.json b.json '')) = Load (Some (js ''a.json''))
   \<and> trim (js ''.load  a.json'') = js ''.load'' @ [0x20] @ js '' a.json''
   \<and> command_of (Some (js ''.load  a.json'')) = Load (Some [])
   \<and> trim (js '' .load '') = js ''.load''
   \<and> command_of (Some (js '' .load '')) = Load None
   \<and> kind_of (command_of (Some (js ''  .load a.json b.json ''))) \<noteq> ChatMessage
   \<and> spec_command (js ''  .load a.json b.json '') = LoadCommand
   \<and> kind_of (command_of (Some (js ''.Exit''))) = ChatMessage
   \<and> command_of (Some (js ''.Exit'')) = Chat (js ''.Exit'')"
proof -
  have t1: "trim (js ''  .load a.json b.json '') = js ''.load'' @ [0x20] @ js ''a.json b.json''"
    by (simp add: trim_def js_def isWhiteSpace_def)
  have t2: "trim (js ''.load  a.json'') = js ''.load'' @ [0x20] @ js '' a.json''"
    by (simp add: trim_def js_def isWhiteSpace_def)
  have t3: "trim (js '' .load '') = js ''.load''"
    by (simp add: trim_def js_def isWhiteSpace_def)
  have p: "takeWhile (\<lambda>c. c \<noteq> 0x20) (js ''a.json b.json'') = js ''a.json''"
    "takeWhile (\<lambda>c. c \<noteq> 0x20) (js '' a.json'') = []"
    by (simp_all add: js_def)
  have c: "kind_of (command_of (Some (js ''.Exit''))) = ChatMessage"
    by (simp add: command_of_def trim_def split_space_def at_index_def js_def isWhiteSpace_def)
  show ?thesis
    using t1 t2 t3 p c
      command_of_cases [of "js ''  .load a.json b.json ''"]
      command_of_cases [of "js ''.load  a.json''"]
      command_of_cases [of "js '' .load ''"]
      command_of_cases [of "js ''.Exit''"]
    by simp
qed

section \<open>Reset and load\<close>

text \<open>
  Claim C9: the reset command empties the conversation, whatever it held, and leaves the
  bot definition, the compiled bot and, in the agent variant, the agent as they were.
\<close>

theorem reset_empties_conversation:
  assumes "trim line = js ''.reset''"
  shows "on_line_plain e (Some line) s = Prompt (s\<lparr>conversation := []\<rparr>) []
    \<and> conversation (s\<lparr>conversation := []\<rparr>) = []
    \<and> bot (s\<lparr>conversation := []\<rparr>) = bot s
    \<and> compiledBot (s\<lparr>conversation := []\<rparr>) = compiledBot s
    \<and> on_line_agent e (Some line) a = Prompt (a\<lparr>conversation := []\<rparr>) []
    \<and> conversation (a\<lparr>conversation := []\<rparr>) = []
    \<and> bot (a\<lparr>conversation := []\<rparr>) = bot a
    \<and> compiledBot (a\<lparr>conversation := []\<rparr>) = compiledBot a
    \<and> agent (a\<lparr>conversation := []\<rparr>) = agent a"
proof -
  have "js ''.reset'' \<noteq> js ''.exit''" by (simp add: js_def)
  with assms have "command_of (Some line) = Reset" by (simp add: command_of_def)
  then show ?thesis by (simp add: on_line_plain_def on_line_agent_def)
qed

theorem reset_empties_conversation_witness:
  "trim (js '' .reset  '') = js ''.reset''
   \<and> on_line_plain scenario_env (Some (js '' .reset  ''))
        \<lparr>bot = defaultBot, compiledBot = compileBot scenario_env defaultBot,
         conversation = [HumanMessage (js ''hello''), scenario_reply]\<rparr>
      = Prompt \<lparr>bot = defaultBot, compiledBot = compileBot scenario_env defaultBot,
               conversation = []\<rparr> []"
proof -
  have t: "trim (js '' .reset  '') = js ''.reset''"
    by (simp add: trim_def js_def isWhiteSpace_def)
  show ?thesis
    using t reset_empties_conversation [OF t, of scenario_env
        "\<lparr>bot = defaultBot, compiledBot = compileBot scenario_env defaultBot,
          conversation = [HumanMessage (js ''hello''), scenario_reply]\<rparr>"]
    by simp
qed

text \<open>The ways a definition fails to load.\<close>

lemma loadBotDefinition_failure:
  "loadBotDefinition e file = Inl err \<longleftrightarrow>
     (file = None \<and> err = TypeError)
     \<or> (\<exists>f. file = Some f \<and>
          (readFile e f = Inl err
           \<or> (\<exists>text. readFile e f = Inr text \<and>
                (JSON_parse e text = Inl err
                 \<or> (\<exists>v. JSON_parse e text = Inr v \<and> botDefinitionSchema_parse v = Inl err)))))"
  by (auto simp: loadBotDefinition_def split: option.splits sum.splits)

text \<open>
  Claim C4: when the definition named by a load command fails to load, the error is logged
  and the session is left exactly as it was, in both variants.
\<close>

theorem load_failure_keeps_session:
  assumes "command_of input = Load file"
    and "loadBotDefinition e file = Inl err"
  shows "on_line_plain e input s = Prompt s [Error_loading err]
    \<and> on_line_agent e input a = Prompt a [Error_loading err]"
  using assms by (simp add: on_line_plain_def on_line_agent_def)

theorem load_failure_keeps_session_witness:
  "command_of (Some (js ''.load missing.json'')) = Load (Some (js ''missing.json''))
   \<and> loadBotDefinition scenario_env (Some (js ''missing.json'')) = Inl IOError
   \<and> on_line_plain scenario_env (Some (js ''.load missing.json''))
        \<lparr>bot = defaultBot, compiledBot = compileBot scenario_env defaultBot,
         conversation = [HumanMessage (js ''hello''), scenario_reply]\<rparr>
      = Prompt \<lparr>bot = defaultBot, compiledBot = compileBot scenario_env defaultBot,
               conversation = [HumanMessage (js ''hello''), scenario_reply]\<rparr>
          [Error_loading IOError]"
proof -
  have c: "command_of (Some (js ''.load missing.json'')) = Load (Some (js ''missing.json''))"
    by (simp add: command_of_def trim_def split_space_def at_index_def js_def isWhiteSpace_def)
  have l: "loadBotDefinition scenario_env (Some (js ''missing.json'')) = Inl IOError"
    by (simp add: loadBotDefinition_def scenario_env_def js_def)
  show ?thesis
    using c l load_failure_keeps_session [OF c l]
    by simp
qed

section \<open>The first turn\<close>

text \<open>
  On an empty conversation the template is rendered with the line, the result is the one
  human message, and the collaborator is called: the chat model with the system message
  and the human message, the agent with the human message.
\<close>

lemma first_turn_plain:
  assumes "conversation s = []"
    and "compiledInitialPromptTemplate (compiledBot s) line = Inr text"
    and "llm_invoke e [SystemMessage (compiledSystemMessage (compiledBot s)), HumanMessage text]
           = Inr res"
  shows "chat_plain e line s =
     Prompt (s\<lparr>conversation := [HumanMessage text, res]\<rparr>)
       ([Invoke_llm [SystemMessage (compiledSystemMessage (compiledBot s)), HumanMessage text]]
          @ snd (contentToString (content res)) @ [Stdout (reply_text res)])"
  using assms by (simp add: chat_plain_def extend_conversation_def)

lemma first_turn_agent:
  assumes "conversation s = []"
    and "compiledInitialPromptTemplate (compiledBot s) line = Inr text"
    and "agent_invoke e (agent s) [HumanMessage text] = Inr res_messages"
  shows "chat_agent e line s =
     Prompt (s\<lparr>conversation := [HumanMessage text] @ drop 1 res_messages\<rparr>)
       [Invoke_agent (agent s) [HumanMessage text], Stdout [0x0A, 0x0A]]"
  using assms by (simp add: chat_agent_def extend_conversation_def)

lemma scenario_load:
  "loadBotDefinition scenario_env (Some (js ''bot.json''))
     = Inr \<lparr>systemMessage = js ''S'', initialPromptTemplate = js ''Q: {{input}}''\<rparr>"
  by (simp add: loadBotDefinition_def scenario_env_def botDefinitionSchema_parse_def js_def)

lemma scenario_render: "render_template (js ''Q: {{input}}'') (js ''hello'') = js ''Q: hello''"
  by (simp add: js_def)

lemma scenario_chat: "command_of (Some (js ''hello'')) = Chat (js ''hello'')"
  by (simp add: command_of_def trim_def split_space_def at_index_def js_def isWhiteSpace_def)

text \<open>
  Claim C7: on a chat turn with an empty conversation the system message and the rendered
  human message are sent. In the scenario the stored human message is \<open>Q: hello\<close> in both
  variants, and the plain variant sends the system message \<open>S\<close> with it. The agent variant
  started with the definition file calls an agent whose system prompt is that of the
  built-in definition, not \<open>S\<close>: the agent is created before the file is read and is not
  created again, as the load command does.
\<close>

theorem agent_started_from_file_keeps_default_prompt:
  "startup_agent scenario_env (Some (js ''bot.json''))
     = Inr \<lparr>bot = \<lparr>systemMessage = js ''S'', initialPromptTemplate = js ''Q: {{input}}''\<rparr>,
            compiledBot = \<lparr>compiledSystemMessage = js ''S'',
              compiledInitialPromptTemplate = Handlebars_compile scenario_env (js ''Q: {{input}}'')\<rparr>,
            conversation = [],
            agent = \<lparr>systemPrompt = systemMessage defaultBot\<rparr>\<rparr>
   \<and> systemMessage defaultBot \<noteq> js ''S''
   \<and> (case startup_agent scenario_env (Some (js ''bot.json'')) of
         Inl err \<Rightarrow> False
       | Inr s \<Rightarrow>
           on_line_agent scenario_env (Some (js ''hello'')) s
             = Prompt (s\<lparr>conversation := [HumanMessage (js ''Q: hello''), scenario_reply]\<rparr>)
                 [Invoke_agent \<lparr>systemPrompt = systemMessage defaultBot\<rparr>
                    [HumanMessage (js ''Q: hello'')],
                  Stdout [0x0A, 0x0A]])
   \<and> (case startup_plain scenario_env (Some (js ''bot.json'')) of
         Inl err \<Rightarrow> False
       | Inr s \<Rightarrow>
           on_line_plain scenario_env (Some (js ''hello'')) s
             = Prompt (s\<lparr>conversation := [HumanMessage (js ''Q: hello''), scenario_reply]\<rparr>)
                 [Invoke_llm [SystemMessage (js ''S''), HumanMessage (js ''Q: hello'')],
                  Stdout (js ''Hi'' @ [0x0A, 0x0A])])"
proof -
  have named: "Some (js ''bot.json'') \<noteq> Some []" by (simp add: js_def)
  have start: "startupBot scenario_env (Some (js ''bot.json''))
      = Inr \<lparr>systemMessage = js ''S'', initialPromptTemplate = js ''Q: {{input}}''\<rparr>"
    using named by (simp add: startupBot_def scenario_load)
  have tpl: "Handlebars_compile scenario_env (js ''Q: {{input}}'') (js ''hello'')
      = Inr (js ''Q: hello'')"
    by (simp add: scenario_env_def scenario_render)
  have dflt: "systemMessage defaultBot \<noteq> js ''S''"
    by (simp add: defaultBot_def js_def)
  have invoke: "agent_invoke scenario_env a msgs = Inr (msgs @ [scenario_reply])" for a msgs
    by (simp add: scenario_env_def)
  have llm: "llm_invoke scenario_env msgs = Inr scenario_reply" for msgs
    by (simp add: scenario_env_def)
  show ?thesis
    using dflt
    by (simp add: startup_agent_def startup_plain_def start compileBot_def createAgent_def
          on_line_agent_def on_line_plain_def scenario_chat chat_agent_def chat_plain_def
          extend_conversation_def tpl invoke llm reply_text_def contentToString_def
          scenario_reply_def AIMessage_def)
qed


end
